theory Spec2Isabelle
  imports Complex_Main "HOL-Library.Word"
begin

section \<open>A genetic algorithm over NumPy arrays (\<open>src/shallow/ga_decimal.py\<close>)\<close>

text \<open>
  The program keeps its data in NumPy arrays that are shared by reference and updated in
  place, so the model has an explicit store: a list of arrays, an address being an index
  into it. Allocation appends, hence the address of a new array is the length of the old
  store. Genes and fitness values are \<open>float64\<close> in the source and real numbers here
  (no rounding, no NaN, no infinities). Every Python exception is a value of \<open>error\<close>.
\<close>

subsection \<open>Arrays, store, errors\<close>

datatype error = ValueError | IndexError | ZeroDivisionError | BadReference

text \<open>
  \<open>Vec xs\<close> is a one-dimensional array; \<open>Mat c rows\<close> is a two-dimensional array of
  shape \<open>(length rows, c)\<close>. \<open>BadReference\<close> has no Python counterpart: it is what the
  model answers when an address holds no array of the rank the function works on.
\<close>

datatype ndarray = Vec "real list" | Mat nat "real list list"

type_synonym addr = nat
type_synonym store = "ndarray list"

definition deref :: "store \<Rightarrow> addr \<Rightarrow> ndarray option" where
  "deref h a = (if a < length h then Some (h ! a) else None)"

definition alloc :: "store \<Rightarrow> ndarray \<Rightarrow> store \<times> addr" where
  "alloc h x = (h @ [x], length h)"

text \<open>\<open>range(n)\<close> loops: the body is run on each index in turn and the first error ends the loop.\<close>

fun for_range :: "('s \<Rightarrow> nat \<Rightarrow> error + 's) \<Rightarrow> nat list \<Rightarrow> 's \<Rightarrow> error + 's" where
  "for_range body [] s = Inr s"
| "for_range body (i # is) s =
     (case body s i of Inl e \<Rightarrow> Inl e | Inr s' \<Rightarrow> for_range body is s')"

subsection \<open>NumPy primitives used by the program\<close>

text \<open>
  \<open>np.empty(shape)\<close>: a negative dimension raises ValueError; the cells are not
  initialised, so their content \<open>junk i j\<close> is a parameter of the model.
\<close>

definition np_empty :: "(nat \<Rightarrow> nat \<Rightarrow> real) \<Rightarrow> int \<times> int \<Rightarrow> error + ndarray" where
  "np_empty junk = (\<lambda>(r, c).
     if r < 0 \<or> c < 0 then Inl ValueError
     else Inr (Mat (nat c) (map (\<lambda>i. map (junk i) [0..<nat c]) [0..<nat r])))"

text \<open>\<open>xs[lo:hi]\<close> for non-negative bounds; \<open>hi = None\<close> is the open slice \<open>xs[lo:]\<close>.\<close>

definition slice :: "nat \<Rightarrow> nat option \<Rightarrow> 'a list \<Rightarrow> 'a list" where
  "slice lo hi xs = drop lo (case hi of None \<Rightarrow> xs | Some k \<Rightarrow> take k xs)"

text \<open>Broadcasting a source of one axis to length \<open>n\<close>: equal lengths, or a single element repeated.\<close>

definition broadcast :: "nat \<Rightarrow> 'a list \<Rightarrow> error + 'a list" where
  "broadcast n src =
     (if length src = n then Inr src
      else if length src = 1 then Inr (replicate n (hd src))
      else Inl ValueError)"

text \<open>\<open>xs[lo:hi] = src\<close>.\<close>

definition assign_slice :: "nat \<Rightarrow> nat option \<Rightarrow> 'a list \<Rightarrow> 'a list \<Rightarrow> error + 'a list" where
  "assign_slice lo hi xs src =
     (let n = length (slice lo hi xs)
      in case broadcast n src of
           Inl e \<Rightarrow> Inl e
         | Inr ys \<Rightarrow> Inr (take lo xs @ ys @ drop (lo + n) xs))"

text \<open>\<open>a.shape[0]\<close> and \<open>a.shape[1]\<close>.\<close>

definition shape0 :: "store \<Rightarrow> addr \<Rightarrow> error + nat" where
  "shape0 h a =
     (case deref h a of
        None \<Rightarrow> Inl BadReference
      | Some (Vec xs) \<Rightarrow> Inr (length xs)
      | Some (Mat c rows) \<Rightarrow> Inr (length rows))"

definition shape1 :: "store \<Rightarrow> addr \<Rightarrow> error + nat" where
  "shape1 h a =
     (case deref h a of
        None \<Rightarrow> Inl BadReference
      | Some (Vec xs) \<Rightarrow> Inl IndexError
      | Some (Mat c rows) \<Rightarrow> Inr c)"

text \<open>\<open>a[i, lo:hi]\<close> read and written; \<open>a[i, :]\<close> is \<open>lo = 0\<close>, \<open>hi = None\<close>.\<close>

definition get_row_slice :: "store \<Rightarrow> addr \<Rightarrow> nat \<Rightarrow> nat \<Rightarrow> nat option \<Rightarrow> error + real list" where
  "get_row_slice h a i lo hi =
     (case deref h a of
        None \<Rightarrow> Inl BadReference
      | Some (Vec xs) \<Rightarrow> Inl IndexError
      | Some (Mat c rows) \<Rightarrow>
          if i < length rows then Inr (slice lo hi (rows ! i)) else Inl IndexError)"

definition set_row_slice ::
  "store \<Rightarrow> addr \<Rightarrow> nat \<Rightarrow> nat \<Rightarrow> nat option \<Rightarrow> real list \<Rightarrow> error + store" where
  "set_row_slice h a i lo hi src =
     (case deref h a of
        None \<Rightarrow> Inl BadReference
      | Some (Vec xs) \<Rightarrow> Inl IndexError
      | Some (Mat c rows) \<Rightarrow>
          if i < length rows then
            (case assign_slice lo hi (rows ! i) src of
               Inl e \<Rightarrow> Inl e
             | Inr r \<Rightarrow> Inr (h[a := Mat c (rows[i := r])]))
          else Inl IndexError)"

text \<open>\<open>a[i, j]\<close> read and written.\<close>

definition get_item2 :: "store \<Rightarrow> addr \<Rightarrow> nat \<Rightarrow> nat \<Rightarrow> error + real" where
  "get_item2 h a i j =
     (case deref h a of
        None \<Rightarrow> Inl BadReference
      | Some (Vec xs) \<Rightarrow> Inl IndexError
      | Some (Mat c rows) \<Rightarrow>
          if i < length rows \<and> j < c then Inr (rows ! i ! j) else Inl IndexError)"

definition set_item2 :: "store \<Rightarrow> addr \<Rightarrow> nat \<Rightarrow> nat \<Rightarrow> real \<Rightarrow> error + store" where
  "set_item2 h a i j v =
     (case deref h a of
        None \<Rightarrow> Inl BadReference
      | Some (Vec xs) \<Rightarrow> Inl IndexError
      | Some (Mat c rows) \<Rightarrow>
          if i < length rows \<and> j < c then Inr (h[a := Mat c (rows[i := (rows ! i)[j := v]])])
          else Inl IndexError)"

text \<open>\<open>f[i] = v\<close> on a one-dimensional array.\<close>

definition set_item1 :: "store \<Rightarrow> addr \<Rightarrow> nat \<Rightarrow> real \<Rightarrow> error + store" where
  "set_item1 h a i v =
     (case deref h a of
        None \<Rightarrow> Inl BadReference
      | Some (Vec xs) \<Rightarrow> if i < length xs then Inr (h[a := Vec (xs[i := v])]) else Inl IndexError
      | Some (Mat c rows) \<Rightarrow> Inl BadReference)"

text \<open>\<open>np.max(f)\<close>: the reduction has no identity, so an empty array raises ValueError.\<close>

fun np_max :: "real list \<Rightarrow> error + real" where
  "np_max [] = Inl ValueError"
| "np_max (x # xs) = Inr (fold max xs x)"

text \<open>\<open>np.where(f == m)[0]\<close>: the indices whose value equals \<open>m\<close>, in increasing order.\<close>

definition np_where_eq :: "real list \<Rightarrow> real \<Rightarrow> nat list" where
  "np_where_eq f m = filter (\<lambda>i. f ! i = m) [0..<length f]"

subsection \<open>\<open>make_selection\<close>\<close>

text \<open>
  \<open>np.iinfo(np.int32).min\<close> is the Python integer \<open>-2147483648\<close>; the source writes
  \<open>-np.iinfo(np.int32).min\<close> into the fitness array.
\<close>

definition int32_min :: int where
  "int32_min = - (2 ^ 31)"

definition sentinel :: real where
  "sentinel = real_of_int (- int32_min)"

text \<open>
  One iteration of the selection loop (source lines 95 to 98). The loop state is the store
  together with the list of the values \<open>max_fitness_idx\<close> took so far; that list is not a
  variable of the source, it records which rows were chosen.
\<close>

definition selection_body ::
  "addr \<Rightarrow> addr \<Rightarrow> addr \<Rightarrow> store \<times> nat list \<Rightarrow> nat \<Rightarrow> error + store \<times> nat list" where
  "selection_body t_population t_fitness_val survivors = (\<lambda>(h, chosen) idx.
     case deref h t_fitness_val of
       Some (Vec f) \<Rightarrow>
         (case np_max f of
            Inl e \<Rightarrow> Inl e
          | Inr m \<Rightarrow>
             (case np_where_eq f m of
                [] \<Rightarrow> Inl IndexError
              | max_fitness_idx # _ \<Rightarrow>
                 (case get_row_slice h t_population max_fitness_idx 0 None of
                    Inl e \<Rightarrow> Inl e
                  | Inr row \<Rightarrow>
                     (case set_row_slice h survivors idx 0 None row of
                        Inl e \<Rightarrow> Inl e
                      | Inr h1 \<Rightarrow>
                         (case set_item1 h1 t_fitness_val max_fitness_idx sentinel of
                            Inl e \<Rightarrow> Inl e
                          | Inr h2 \<Rightarrow> Inr (h2, chosen @ [max_fitness_idx]))))))
     | _ \<Rightarrow> Inl BadReference)"

text \<open>
  \<open>make_selection\<close> with the chosen indices: allocate \<open>survivors\<close>, run the loop
  \<open>t_parents\<close> times (\<open>range\<close> of a negative number is empty, but \<open>np.empty\<close> has
  already raised then).
\<close>

definition make_selection_trace ::
  "(nat \<Rightarrow> nat \<Rightarrow> real) \<Rightarrow> store \<Rightarrow> addr \<Rightarrow> addr \<Rightarrow> int \<Rightarrow> error + (store \<times> addr) \<times> nat list" where
  "make_selection_trace junk h t_population t_fitness_val t_parents =
     (case shape1 h t_population of
        Inl e \<Rightarrow> Inl e
      | Inr g \<Rightarrow>
         (case np_empty junk (t_parents, int g) of
            Inl e \<Rightarrow> Inl e
          | Inr arr \<Rightarrow>
             (let (h0, survivors) = alloc h arr
              in case for_range (selection_body t_population t_fitness_val survivors)
                        [0..<nat t_parents] (h0, []) of
                   Inl e \<Rightarrow> Inl e
                 | Inr (h', chosen) \<Rightarrow> Inr ((h', survivors), chosen))))"

definition make_selection ::
  "(nat \<Rightarrow> nat \<Rightarrow> real) \<Rightarrow> store \<Rightarrow> addr \<Rightarrow> addr \<Rightarrow> int \<Rightarrow> error + store \<times> addr" where
  "make_selection junk h t_population t_fitness_val t_parents =
     map_sum id fst (make_selection_trace junk h t_population t_fitness_val t_parents)"

subsection \<open>\<open>crossover\<close>\<close>

text \<open>
  \<open>np.uint8(x)\<close> for a non-negative float with integral part \<open>n\<close>: the value is cut
  to eight bits. NumPy leaves the conversion of a float outside 0..255 to the C compiler;
  the model keeps the low eight bits, as NumPy 1.x does on the common platforms. (Later
  versions raise OverflowError there instead. Either way the result is \<open>n\<close> only
  for \<open>n \<le> 255\<close>.)
\<close>

definition np_uint8 :: "nat \<Rightarrow> nat" where
  "np_uint8 n = unat (of_nat n :: 8 word)"

text \<open>
  One iteration of the crossover loop (source lines 54 to 59). \<open>i % t_survivor.shape[0]\<close>
  raises ZeroDivisionError on an empty parent pool. Each right-hand side is read before
  the assignment it feeds.
\<close>

definition crossover_body :: "addr \<Rightarrow> nat \<Rightarrow> addr \<Rightarrow> store \<Rightarrow> nat \<Rightarrow> error + store" where
  "crossover_body t_survivor crossover_point offspring h i =
     (case shape0 h t_survivor of
        Inl e \<Rightarrow> Inl e
      | Inr k \<Rightarrow>
          if k = 0 then Inl ZeroDivisionError
          else
            (let first_parent_idx = i mod k;
                 second_parent_idx = (i + 1) mod k
             in case get_row_slice h t_survivor first_parent_idx 0 (Some crossover_point) of
                  Inl e \<Rightarrow> Inl e
                | Inr src1 \<Rightarrow>
                   (case set_row_slice h offspring i 0 (Some crossover_point) src1 of
                      Inl e \<Rightarrow> Inl e
                    | Inr h1 \<Rightarrow>
                       (case get_row_slice h1 t_survivor second_parent_idx crossover_point None of
                          Inl e \<Rightarrow> Inl e
                        | Inr src2 \<Rightarrow>
                            set_row_slice h1 offspring i crossover_point None src2))))"

text \<open>
  \<open>t_size[1] / 2\<close> is a float division; for the non-negative \<open>t_size[1]\<close> that
  \<open>np.empty\<close> has accepted, its integral part is \<open>t_size[1] div 2\<close>.
\<close>

definition crossover ::
  "(nat \<Rightarrow> nat \<Rightarrow> real) \<Rightarrow> store \<Rightarrow> addr \<Rightarrow> int \<times> int \<Rightarrow> error + store \<times> addr" where
  "crossover junk h t_survivor t_size =
     (case np_empty junk t_size of
        Inl e \<Rightarrow> Inl e
      | Inr arr \<Rightarrow>
         (let (h0, offspring) = alloc h arr;
              crossover_point = np_uint8 (nat (snd t_size) div 2)
          in case for_range (crossover_body t_survivor crossover_point offspring)
                    [0..<nat (fst t_size)] h0 of
               Inl e \<Rightarrow> Inl e
             | Inr h' \<Rightarrow> Inr (h', offspring)))"

subsection \<open>\<open>mutate\<close>\<close>

text \<open>
  The random generator is a sequence \<open>U\<close> of variates of the unit interval and a counter
  of how many were drawn; \<open>np.random.uniform(low, high)\<close> scales the next one, as NumPy does.
\<close>

definition np_random_uniform :: "(nat \<Rightarrow> real) \<Rightarrow> nat \<Rightarrow> real \<Rightarrow> real \<Rightarrow> real" where
  "np_random_uniform U n low high = low + (high - low) * U n"

text \<open>One iteration of the mutation loop (source lines 32 and 33); the state is the store and the counter.\<close>

definition mutate_body :: "(nat \<Rightarrow> real) \<Rightarrow> addr \<Rightarrow> store \<times> nat \<Rightarrow> nat \<Rightarrow> error + store \<times> nat" where
  "mutate_body U t_offspring = (\<lambda>(h, n) idx.
     let random_value = np_random_uniform U n (- 1) 1
     in case get_item2 h t_offspring idx 4 of
          Inl e \<Rightarrow> Inl e
        | Inr x \<Rightarrow>
           (case set_item2 h t_offspring idx 4 (x + random_value) of
              Inl e \<Rightarrow> Inl e
            | Inr h' \<Rightarrow> Inr (h', Suc n)))"

text \<open>\<open>mutate\<close> returns the reference it was given.\<close>

definition mutate :: "(nat \<Rightarrow> real) \<Rightarrow> store \<times> nat \<Rightarrow> addr \<Rightarrow> error + (store \<times> nat) \<times> addr" where
  "mutate U s t_offspring =
     (case shape0 (fst s) t_offspring of
        Inl e \<Rightarrow> Inl e
      | Inr m \<Rightarrow>
         (case for_range (mutate_body U t_offspring) [0..<m] s of
            Inl e \<Rightarrow> Inl e
          | Inr s' \<Rightarrow> Inr (s', t_offspring)))"

subsection \<open>\<open>evaluate_fitness\<close>\<close>

text \<open>
  \<open>t_population * t_eq\<close> for a matrix of \<open>c\<close> columns and a tuple: the tuple is
  broadcast along the rows when the lengths agree or one of them is 1.
\<close>

definition multiply_rows :: "real list list \<Rightarrow> nat \<Rightarrow> real list \<Rightarrow> error + real list list" where
  "multiply_rows rows c t_eq =
     (if length t_eq = c then Inr (map (\<lambda>r. map2 (*) r t_eq) rows)
      else if length t_eq = 1 then Inr (map (map (\<lambda>x. x * hd t_eq)) rows)
      else if c = 1 then Inr (map (\<lambda>r. map (\<lambda>e. hd r * e) t_eq) rows)
      else Inl ValueError)"

text \<open>\<open>np.sum(..., axis=1)\<close> of the product, in a new one-dimensional array.\<close>

definition evaluate_fitness :: "store \<Rightarrow> real list \<Rightarrow> addr \<Rightarrow> error + store \<times> addr" where
  "evaluate_fitness h t_eq t_population =
     (case deref h t_population of
        Some (Mat c rows) \<Rightarrow>
          (case multiply_rows rows c t_eq of
             Inl e \<Rightarrow> Inl e
           | Inr products \<Rightarrow> Inr (alloc h (Vec (map sum_list products))))
      | _ \<Rightarrow> Inl BadReference)"

subsection \<open>The generational loop\<close>

text \<open>\<open>a[lo:hi, :] = b\<close> for two matrices, with NumPy's broadcasting of \<open>b\<close> on both axes.\<close>

definition assign_rows :: "store \<Rightarrow> addr \<Rightarrow> nat \<Rightarrow> nat option \<Rightarrow> addr \<Rightarrow> error + store" where
  "assign_rows h a lo hi b =
     (case deref h a of
        Some (Mat c rows) \<Rightarrow>
          (case deref h b of
             Some (Mat c' src) \<Rightarrow>
               if c' \<noteq> c \<and> c' \<noteq> 1 then Inl ValueError
               else
                 (let n = length (slice lo hi rows)
                  in case broadcast n src of
                       Inl e \<Rightarrow> Inl e
                     | Inr src' \<Rightarrow>
                         Inr (h[a := Mat c (take lo rows
                                @ map (\<lambda>r. if c' = c then r else replicate c (hd r)) src'
                                @ drop (lo + n) rows)]))
           | _ \<Rightarrow> Inl BadReference)
      | _ \<Rightarrow> Inl BadReference)"

text \<open>\<open>make_initial_population\<close>: \<open>np.random.uniform\<close> fills a new array row by row.\<close>

definition make_initial_population ::
  "(nat \<Rightarrow> real) \<Rightarrow> store \<times> nat \<Rightarrow> int \<times> int \<Rightarrow> real \<Rightarrow> real \<Rightarrow> error + (store \<times> nat) \<times> addr" where
  "make_initial_population U s t_size t_low t_high =
     (let (r, c) = t_size; (h, n) = s
      in if r < 0 \<or> c < 0 then Inl ValueError
         else
           (let (h', a) = alloc h (Mat (nat c)
                  (map (\<lambda>i. map (\<lambda>j. np_random_uniform U (n + i * nat c + j) t_low t_high)
                          [0..<nat c]) [0..<nat r]))
            in Inr ((h', n + nat r * nat c), a)))"

text \<open>The variables of the main program that the loop assigns; they are unbound before the first iteration.\<close>

record vars =
  heap :: store
  rng :: nat
  fitness :: "addr option"
  parents :: "addr option"
  offspring_cro :: "addr option"
  offspring_mut :: "addr option"

text \<open>
  The body of the main loop (source lines 114 to 121). The constants of the main program
  are parameters here; \<open>junk a\<close> is the uninitialised content of the array that
  \<open>np.empty\<close> allocates at address \<open>a\<close>.
\<close>

definition generation ::
  "(nat \<Rightarrow> real) \<Rightarrow> (addr \<Rightarrow> nat \<Rightarrow> nat \<Rightarrow> real) \<Rightarrow> real list \<Rightarrow> int \<Rightarrow> int \<times> int \<Rightarrow> int \<Rightarrow> addr
     \<Rightarrow> vars \<Rightarrow> nat \<Rightarrow> error + vars" where
  "generation U junk eq_inputs weights pop_size parent_donors pop v gen =
     (case evaluate_fitness (heap v) eq_inputs pop of
        Inl e \<Rightarrow> Inl e
      | Inr (h1, fitness') \<Rightarrow>
     (case make_selection (junk (length h1)) h1 pop fitness' parent_donors of
        Inl e \<Rightarrow> Inl e
      | Inr (h2, parents') \<Rightarrow>
     (case shape0 h2 parents' of
        Inl e \<Rightarrow> Inl e
      | Inr k \<Rightarrow>
     (case crossover (junk (length h2)) h2 parents' (fst pop_size - int k, weights) of
        Inl e \<Rightarrow> Inl e
      | Inr (h3, offspring_cro') \<Rightarrow>
     (case mutate U (h3, rng v) offspring_cro' of
        Inl e \<Rightarrow> Inl e
      | Inr ((h4, n), offspring_mut') \<Rightarrow>
     (case shape0 h4 parents' of
        Inl e \<Rightarrow> Inl e
      | Inr k1 \<Rightarrow>
     (case assign_rows h4 pop 0 (Some k1) parents' of
        Inl e \<Rightarrow> Inl e
      | Inr h5 \<Rightarrow>
     (case shape0 h5 parents' of
        Inl e \<Rightarrow> Inl e
      | Inr k2 \<Rightarrow>
     (case assign_rows h5 pop k2 None offspring_mut' of
        Inl e \<Rightarrow> Inl e
      | Inr h6 \<Rightarrow>
          Inr \<lparr>heap = h6, rng = n, fitness = Some fitness', parents = Some parents',
               offspring_cro = Some offspring_cro', offspring_mut = Some offspring_mut'\<rparr>)))))))))"

definition ga_loop ::
  "(nat \<Rightarrow> real) \<Rightarrow> (addr \<Rightarrow> nat \<Rightarrow> nat \<Rightarrow> real) \<Rightarrow> real list \<Rightarrow> int \<Rightarrow> int \<times> int \<Rightarrow> int \<Rightarrow> addr
     \<Rightarrow> nat \<Rightarrow> vars \<Rightarrow> error + vars" where
  "ga_loop U junk eq_inputs weights pop_size parent_donors pop generations v =
     for_range (generation U junk eq_inputs weights pop_size parent_donors pop) [0..<generations] v"

text \<open>The main program up to the end of its loop (source lines 104 to 121), from an empty store.\<close>

definition eq_inputs :: "real list" where
  "eq_inputs = [4, - 2, 3.5, 5, - 11, - 4.7]"

definition weights :: int where
  "weights = 6"

definition pool_size :: int where
  "pool_size = 8"

definition parent_donors :: int where
  "parent_donors = 4"

definition pop_size :: "int \<times> int" where
  "pop_size = (pool_size, weights)"

definition generations :: nat where
  "generations = 20"

definition ga_main :: "(nat \<Rightarrow> real) \<Rightarrow> (addr \<Rightarrow> nat \<Rightarrow> nat \<Rightarrow> real) \<Rightarrow> error + addr \<times> vars" where
  "ga_main U junk =
     (case make_initial_population U ([], 0) pop_size (- 4.0) 4.0 of
        Inl e \<Rightarrow> Inl e
      | Inr ((h, n), pop) \<Rightarrow>
         (case ga_loop U junk eq_inputs weights pop_size parent_donors pop generations
                 \<lparr>heap = h, rng = n, fitness = None, parents = None,
                  offspring_cro = None, offspring_mut = None\<rparr> of
            Inl e \<Rightarrow> Inl e
          | Inr v \<Rightarrow> Inr (pop, v)))"

subsection \<open>Inputs of the worked examples\<close>

text \<open>Uninitialised memory that happens to hold zeros, and a generator whose variates are all one half.\<close>

definition zero_junk :: "nat \<Rightarrow> nat \<Rightarrow> real" where
  "zero_junk i j = 0"

definition zero_junks :: "addr \<Rightarrow> nat \<Rightarrow> nat \<Rightarrow> real" where
  "zero_junks a = zero_junk"

definition half_stream :: "nat \<Rightarrow> real" where
  "half_stream n = 1 / 2"

section \<open>Properties\<close>

subsection \<open>Loops and the store\<close>

lemma for_range_snoc:
  "for_range body (xs @ [x]) s =
     (case for_range body xs s of Inl e \<Rightarrow> Inl e | Inr s' \<Rightarrow> body s' x)"
  by (induction xs arbitrary: s) (auto split: sum.splits)

lemma for_range_upt_total:
  assumes "I 0 s0"
    and "\<And>i s. i < n \<Longrightarrow> I i s \<Longrightarrow> \<exists>s'. body s i = Inr s' \<and> I (Suc i) s'"
  shows "\<exists>s. for_range body [0..<n] s0 = Inr s \<and> I n s"
  using assms(2)
proof (induction n)
  case 0
  then show ?case using assms(1) by simp
next
  case (Suc n)
  then obtain s where s: "for_range body [0..<n] s0 = Inr s" "I n s"
    by (meson less_Suc_eq)
  from Suc.prems [of n s] s(2) obtain s' where "body s n = Inr s'" "I (Suc n) s'"
    by auto
  with s show ?case by (simp add: for_range_snoc)
qed

lemma for_range_upt_invariant:
  assumes "for_range body [0..<n] s0 = Inr s"
    and "I 0 s0"
    and "\<And>i s s'. i < n \<Longrightarrow> I i s \<Longrightarrow> body s i = Inr s' \<Longrightarrow> I (Suc i) s'"
  shows "I n s"
  using assms(1,3)
proof (induction n arbitrary: s)
  case 0
  then show ?case using assms(2) by simp
next
  case (Suc n)
  from Suc.prems(1) obtain s1 where s1: "for_range body [0..<n] s0 = Inr s1" "body s1 n = Inr s"
    by (auto simp: for_range_snoc split: sum.splits)
  have "I n s1" using Suc.IH [OF s1(1)] Suc.prems(2) by (meson less_Suc_eq)
  then show ?case using Suc.prems(2) [of n s1 s] s1(2) by simp
qed

lemma deref_update:
  "deref (h[a := x]) b = (if a = b \<and> b < length h then Some x else deref h b)"
  by (simp add: deref_def)

lemma deref_append:
  "deref (h @ [x]) b = (if b = length h then Some x else deref h b)"
  by (auto simp: deref_def nth_append)

lemma deref_Some_less: "deref h a = Some x \<Longrightarrow> a < length h"
  by (simp add: deref_def split: if_splits)

subsection \<open>Selection\<close>

lemma fold_max_Max: "fold max xs (x::real) = Max (set (x # xs))"
  using Max.set_eq_fold [of x xs] by simp

lemma np_max_Inr: "np_max f = Inr m \<longleftrightarrow> f \<noteq> [] \<and> m = Max (set f)"
  by (cases f) (auto simp: fold_max_Max)

lemma np_where_eq_first:
  assumes "np_where_eq f m = i # is"
  shows "i < length f \<and> f ! i = m \<and> (\<forall>j<i. f ! j \<noteq> m)"
proof -
  have mem: "i \<in> set (np_where_eq f m)" using assms by simp
  have sorted: "sorted (np_where_eq f m)" by (simp add: np_where_eq_def sorted_wrt_filter)
  have "\<forall>j \<in> set (np_where_eq f m). i \<le> j" using sorted assms by auto
  moreover have "\<And>j. j < length f \<Longrightarrow> f ! j = m \<Longrightarrow> j \<in> set (np_where_eq f m)"
    by (simp add: np_where_eq_def)
  ultimately have "\<And>j. j < length f \<Longrightarrow> f ! j = m \<Longrightarrow> i \<le> j" by blast
  moreover have "i < length f" "f ! i = m" using mem by (simp_all add: np_where_eq_def)
  ultimately show ?thesis by (meson less_trans not_less)
qed

lemma np_where_eq_Max_nonempty:
  assumes "f \<noteq> []"
  shows "np_where_eq f (Max (set f)) \<noteq> []"
proof -
  have "Max (set f) \<in> set f" using assms by (simp add: Max_in)
  then obtain j where "j < length f" "f ! j = Max (set f)" by (auto simp: in_set_conv_nth)
  then have "j \<in> set (np_where_eq f (Max (set f)))" by (simp add: np_where_eq_def)
  then show ?thesis by auto
qed

lemma assign_whole_row:
  "length src = length xs \<Longrightarrow> assign_slice 0 None xs src = Inr src"
  by (simp add: assign_slice_def slice_def broadcast_def)

lemma selection_body_Inr:
  assumes fit: "deref h fit = Some (Vec f)" and ne: "f \<noteq> []"
    and pop: "deref h pop = Some (Mat g rows)" and len: "length f \<le> length rows"
    and surv: "deref h surv = Some (Mat g srows)" and idx: "idx < length srows"
    and wf: "\<forall>r \<in> set rows. length r = g" "\<forall>r \<in> set srows. length r = g"
  shows "\<exists>i. i < length f \<and> f ! i = Max (set f) \<and> (\<forall>j<i. f ! j \<noteq> Max (set f)) \<and>
           selection_body pop fit surv (h, chosen) idx =
             Inr (h[surv := Mat g (srows[idx := rows ! i]), fit := Vec (f[i := sentinel])],
                  chosen @ [i])"
proof -
  obtain i rest where i: "np_where_eq f (Max (set f)) = i # rest"
    using np_where_eq_Max_nonempty [OF ne] by (cases "np_where_eq f (Max (set f))") auto
  note first = np_where_eq_first [OF i]
  have m: "np_max f = Inr (Max (set f))" using ne by (simp add: np_max_Inr)
  have ilt: "i < length rows" using first len by simp
  have row: "get_row_slice h pop i 0 None = Inr (rows ! i)"
    using pop ilt by (simp add: get_row_slice_def slice_def)
  have "length (rows ! i) = length (srows ! idx)" using wf ilt idx by simp
  then have wr: "set_row_slice h surv idx 0 None (rows ! i) =
      Inr (h[surv := Mat g (srows[idx := rows ! i])])"
    using surv idx by (simp add: set_row_slice_def assign_whole_row)
  have neq: "surv \<noteq> fit" using fit surv by auto
  have "deref (h[surv := Mat g (srows[idx := rows ! i])]) fit = Some (Vec f)"
    using fit neq by (simp add: deref_update)
  then have upd: "set_item1 (h[surv := Mat g (srows[idx := rows ! i])]) fit i sentinel =
      Inr (h[surv := Mat g (srows[idx := rows ! i]), fit := Vec (f[i := sentinel])])"
    using first by (simp add: set_item1_def)
  show ?thesis
    using first by (intro exI [of _ i]) (simp add: selection_body_def fit m i row wr upd)
qed

lemma set_update_lengths:
  "\<forall>r \<in> set rows. length r = g \<Longrightarrow> length x = g \<Longrightarrow> \<forall>r \<in> set (rows[i := x]). length r = g"
  by (metis in_set_conv_nth length_list_update nth_list_update_eq nth_list_update_neq nth_mem)

lemma make_selection_trace_spec:
  assumes pop: "deref h pop = Some (Mat g rows)" and wf: "\<forall>r \<in> set rows. length r = g"
    and fit: "deref h fit = Some (Vec f)" and len: "length f = length rows"
    and ne: "0 < k \<longrightarrow> rows \<noteq> []" and k: "0 \<le> k"
  shows "\<exists>h' chosen srows f'.
      make_selection_trace junk h pop fit k = Inr ((h', length h), chosen)
    \<and> length h' = Suc (length h)
    \<and> (\<forall>a<length h. a \<noteq> fit \<longrightarrow> h' ! a = h ! a)
    \<and> deref h' fit = Some (Vec f') \<and> length f' = length f
    \<and> deref h' (length h) = Some (Mat g srows) \<and> length srows = nat k
    \<and> (\<forall>r \<in> set srows. length r = g)
    \<and> length chosen = nat k
    \<and> (\<forall>j<nat k. chosen ! j < length rows \<and> srows ! j = rows ! (chosen ! j))"
proof -
  define surv where "surv = length h"
  define arr where "arr = Mat g (map (\<lambda>i. map (junk i) [0..<g]) [0..<nat k])"
  define I where "I = (\<lambda>i (s :: store \<times> nat list).
       length (fst s) = Suc (length h)
     \<and> (\<forall>a<length h. a \<noteq> fit \<longrightarrow> fst s ! a = h ! a)
     \<and> (\<exists>f'. deref (fst s) fit = Some (Vec f') \<and> length f' = length f)
     \<and> (\<exists>srows. deref (fst s) surv = Some (Mat g srows) \<and> length srows = nat k
          \<and> (\<forall>r \<in> set srows. length r = g) \<and> length (snd s) = i
          \<and> (\<forall>j<i. snd s ! j < length rows \<and> srows ! j = rows ! (snd s ! j))))"
  have popl: "pop < length h" and fitl: "fit < length h"
    using pop fit by (auto dest: deref_Some_less)
  have pf: "pop \<noteq> fit" using pop fit by auto
  have init: "I 0 (h @ [arr], [])"
    using fit fitl by (auto simp: I_def deref_append surv_def arr_def nth_append)
  have step: "\<exists>s'. selection_body pop fit surv s i = Inr s' \<and> I (Suc i) s'"
    if "i < nat k" and inv: "I i s" for i s
  proof -
    obtain h1 chosen where s: "s = (h1, chosen)" by (cases s)
    from inv s obtain f1 srows where
      l1: "length h1 = Suc (length h)" and
      fr: "\<forall>a<length h. a \<noteq> fit \<longrightarrow> h1 ! a = h ! a" and
      f1: "deref h1 fit = Some (Vec f1)" "length f1 = length f" and
      sr: "deref h1 surv = Some (Mat g srows)" "length srows = nat k"
          "\<forall>r \<in> set srows. length r = g" and
      ch: "length chosen = i" "\<forall>j<i. chosen ! j < length rows \<and> srows ! j = rows ! (chosen ! j)"
      by (auto simp: I_def)
    have p1: "deref h1 pop = Some (Mat g rows)"
      using pop popl pf fr l1 by (simp add: deref_def)
    have "0 < k" using that by simp
    then have fne: "f1 \<noteq> []" using ne f1(2) len by auto
    have lenle: "length f1 \<le> length rows" using f1(2) len by simp
    have idx: "i < length srows" using that sr(2) by simp
    from selection_body_Inr [OF f1(1) fne p1 lenle sr(1) idx wf sr(3), of chosen]
    obtain i0 where i0: "i0 < length f1"
      and body: "selection_body pop fit surv (h1, chosen) i =
         Inr (h1[surv := Mat g (srows[i := rows ! i0]), fit := Vec (f1[i0 := sentinel])],
              chosen @ [i0])"
      by blast
    let ?h2 = "h1[surv := Mat g (srows[i := rows ! i0]), fit := Vec (f1[i0 := sentinel])]"
    have i0r: "i0 < length rows" using i0 lenle by simp
    have sf: "surv \<noteq> fit" using fitl by (simp add: surv_def)
    have a: "length ?h2 = Suc (length h)" using l1 by simp
    have b: "\<forall>a<length h. a \<noteq> fit \<longrightarrow> ?h2 ! a = h ! a"
      using fr by (simp add: surv_def)
    have c: "deref ?h2 fit = Some (Vec (f1[i0 := sentinel]))"
      using fitl l1 by (simp add: deref_def)
    have d: "deref ?h2 surv = Some (Mat g (srows[i := rows ! i0]))"
      using sf l1 by (simp add: deref_def surv_def)
    have "length (rows ! i0) = g" using wf i0r by simp
    then have e: "\<forall>r \<in> set (srows[i := rows ! i0]). length r = g"
      by (rule set_update_lengths [OF sr(3)])
    have f: "\<forall>j<Suc i. (chosen @ [i0]) ! j < length rows
                \<and> (srows[i := rows ! i0]) ! j = rows ! ((chosen @ [i0]) ! j)"
      using ch i0r idx by (auto simp: nth_append less_Suc_eq)
    have "I (Suc i) (?h2, chosen @ [i0])"
      unfolding I_def using a b c d e f f1(2) sr(2) ch(1) by simp
    then show ?thesis using body s by simp
  qed
  from for_range_upt_total [of I "(h @ [arr], [])" "nat k" "selection_body pop fit surv", OF init step]
  obtain s where run: "for_range (selection_body pop fit surv) [0..<nat k] (h @ [arr], []) = Inr s"
    and fin: "I (nat k) s" by blast
  obtain h' chosen where s: "s = (h', chosen)" by (cases s)
  have sh: "shape1 h pop = Inr g" using pop by (simp add: shape1_def)
  have em: "np_empty junk (k, int g) = Inr arr" using k by (simp add: np_empty_def arr_def)
  have res: "make_selection_trace junk h pop fit k = Inr ((h', length h), chosen)"
    using run s by (simp add: make_selection_trace_def sh em alloc_def surv_def)
  show ?thesis using fin res unfolding I_def s surv_def by auto
qed

text \<open>
  C3. In an iteration of the selection loop that runs on the fitness vector \<open>f\<close>, the
  index appended to the chosen ones holds the maximum of \<open>f\<close> and is the lowest index
  that does: of several indices that tie for the maximum, the first is taken.
\<close>

theorem selection_body_lowest_tied_index:
  assumes "deref h t_fitness_val = Some (Vec f)"
    and "selection_body t_population t_fitness_val survivors (h, chosen) idx = Inr (h', chosen')"
  shows "\<exists>i. chosen' = chosen @ [i] \<and> i < length f \<and> f ! i = Max (set f)
           \<and> (\<forall>j<length f. f ! j = Max (set f) \<longrightarrow> i \<le> j)"
proof -
  from assms obtain m i rest where m: "np_max f = Inr m"
    and i: "np_where_eq f m = i # rest" and c: "chosen' = chosen @ [i]"
    by (auto simp: selection_body_def split: sum.splits list.splits)
  have "m = Max (set f)" using m by (simp add: np_max_Inr)
  with np_where_eq_first [OF i] c show ?thesis
    by (intro exI [of _ i]) (auto simp: not_less [symmetric])
qed

theorem selection_body_lowest_tied_index_witness:
  "deref [Mat 2 [[0, 0], [1, 1], [2, 2], [3, 3]], Vec [3, 7, 1, 7], Mat 2 [[0, 0], [0, 0]]] 1
     = Some (Vec [3, 7, 1, 7])
   \<and> selection_body 0 1 2
       ([Mat 2 [[0, 0], [1, 1], [2, 2], [3, 3]], Vec [3, 7, 1, 7], Mat 2 [[0, 0], [0, 0]]], []) 0
     = Inr ([Mat 2 [[0, 0], [1, 1], [2, 2], [3, 3]], Vec [3, 2147483648, 1, 7],
             Mat 2 [[1, 1], [0, 0]]], [1])
   \<and> (\<exists>i. [1] = [] @ [i] \<and> i < length [3, 7, 1, 7 :: real]
          \<and> [3, 7, 1, 7 :: real] ! i = Max (set [3, 7, 1, 7])
          \<and> (\<forall>j<length [3, 7, 1, 7 :: real].
                [3, 7, 1, 7 :: real] ! j = Max (set [3, 7, 1, 7]) \<longrightarrow> i \<le> j))"
proof -
  have a: "deref [Mat 2 [[0, 0], [1, 1], [2, 2], [3, 3]], Vec [3, 7, 1, 7], Mat 2 [[0, 0], [0, 0]]] 1
     = Some (Vec [3, 7, 1, 7])"
    by code_simp
  have b: "selection_body 0 1 2
       ([Mat 2 [[0, 0], [1, 1], [2, 2], [3, 3]], Vec [3, 7, 1, 7], Mat 2 [[0, 0], [0, 0]]], []) 0
     = Inr ([Mat 2 [[0, 0], [1, 1], [2, 2], [3, 3]], Vec [3, 2147483648, 1, 7],
             Mat 2 [[1, 1], [0, 0]]], [1])"
    by code_simp
  show ?thesis
    using a b selection_body_lowest_tied_index [OF a b] by blast
qed

text \<open>
  C9. On a population of at least one row with a fitness value per row, \<open>make_selection\<close>
  returns a new array of \<open>t_parents\<close> rows and each of them is a row of the population.
\<close>

theorem make_selection_rows_from_population:
  assumes "deref h t_population = Some (Mat g rows)" and "\<forall>r \<in> set rows. length r = g"
    and "deref h t_fitness_val = Some (Vec f)" and "length f = length rows"
    and "rows \<noteq> []" and "1 \<le> t_parents"
  shows "\<exists>h' srows. make_selection junk h t_population t_fitness_val t_parents = Inr (h', length h)
           \<and> deref h' (length h) = Some (Mat g srows) \<and> length srows = nat t_parents
           \<and> (\<forall>r \<in> set srows. r \<in> set rows)"
proof -
  have ne: "0 < t_parents \<longrightarrow> rows \<noteq> []" and k: "0 \<le> t_parents"
    using assms(5,6) by simp_all
  from make_selection_trace_spec [OF assms(1-4) ne k, of junk]
  obtain h' chosen srows where
    run: "make_selection_trace junk h t_population t_fitness_val t_parents
            = Inr ((h', length h), chosen)"
    and sr: "deref h' (length h) = Some (Mat g srows)" "length srows = nat t_parents"
    and ch: "\<forall>j<nat t_parents. chosen ! j < length rows \<and> srows ! j = rows ! (chosen ! j)"
    by blast
  have "r \<in> set rows" if "r \<in> set srows" for r
  proof -
    from that obtain j where "j < length srows" "r = srows ! j"
      by (auto simp: in_set_conv_nth)
    with ch sr(2) show ?thesis by simp
  qed
  moreover have "make_selection junk h t_population t_fitness_val t_parents = Inr (h', length h)"
    using run by (simp add: make_selection_def)
  ultimately show ?thesis using sr by blast
qed

theorem make_selection_rows_from_population_witness:
  "\<exists>h' srows. make_selection zero_junk [Mat 2 [[0, 0], [1, 1], [2, 2]], Vec [5, 5, 5]] 0 1 3
       = Inr (h', 2)
     \<and> deref h' 2 = Some (Mat 2 srows) \<and> length srows = 3
     \<and> (\<forall>r \<in> set srows. r \<in> set [[0, 0], [1, 1], [2, 2]])"
proof -
  have a: "deref [Mat 2 [[0, 0], [1, 1], [2, 2]], Vec [5, 5, 5]] 0 = Some (Mat 2 [[0, 0], [1, 1], [2, 2]])"
    by code_simp
  have b: "\<forall>r \<in> set [[0, 0], [1, 1], [2, 2 :: real]]. length r = 2" by simp
  have c: "deref [Mat 2 [[0, 0], [1, 1], [2, 2]], Vec [5, 5, 5]] 1 = Some (Vec [5, 5, 5])"
    by code_simp
  have d: "length [5, 5, 5 :: real] = length [[0, 0], [1, 1], [2, 2 :: real]]" by simp
  have e: "[[0, 0], [1, 1], [2, 2 :: real]] \<noteq> []" by simp
  have f: "(1::int) \<le> 3" by simp
  show ?thesis
    using make_selection_rows_from_population [OF a b c d e f, of zero_junk]
    by (simp add: numeral_2_eq_2)
qed

text \<open>
  C1. The value written over a chosen fitness entry is \<open>-np.iinfo(np.int32).min\<close>, that is
  \<open>+2147483648\<close>: on the fitness vector \<open>[3, 7, 1, 7]\<close> with two parents the entry at
  index 1 becomes the maximum and the loop chooses index 1 in both iterations.
\<close>

theorem make_selection_repeats_index:
  "sentinel = 2147483648
   \<and> make_selection_trace zero_junk
        [Mat 2 [[3, 0], [7, 1], [1, 2], [7, 3]], Vec [3, 7, 1, 7]] 0 1 2
     = Inr (([Mat 2 [[3, 0], [7, 1], [1, 2], [7, 3]], Vec [3, 2147483648, 1, 7],
              Mat 2 [[7, 1], [7, 1]]], 2), [1, 1])"
  by code_simp

text \<open>
  C2. The population \<open>[[3, 0], [7, 1], [1, 2], [7, 3]]\<close> has the fitness vector
  \<open>[3, 7, 1, 7]\<close> under the equation \<open>(1, 0)\<close>. With two parents \<open>make_selection\<close>
  returns the row at index 1 twice; the row at index 3 is not among the parents.
\<close>

theorem make_selection_example_parents:
  "evaluate_fitness [Mat 2 [[3, 0], [7, 1], [1, 2], [7, 3]]] [1, 0] 0
     = Inr ([Mat 2 [[3, 0], [7, 1], [1, 2], [7, 3]], Vec [3, 7, 1, 7]], 1)
   \<and> make_selection zero_junk [Mat 2 [[3, 0], [7, 1], [1, 2], [7, 3]], Vec [3, 7, 1, 7]] 0 1 2
     = Inr ([Mat 2 [[3, 0], [7, 1], [1, 2], [7, 3]], Vec [3, 2147483648, 1, 7],
             Mat 2 [[7, 1], [7, 1]]], 2)"
  by code_simp

subsection \<open>Mutation\<close>

lemma mutate_body_Inr:
  assumes "deref h a = Some (Mat g rows)" and "i < length rows" and "4 < g"
  shows "mutate_body U a (h, n) i =
           Inr (h[a := Mat g (rows[i := (rows ! i)[4 := rows ! i ! 4 + np_random_uniform U n (- 1) 1]])],
                Suc n)"
  using assms by (simp add: mutate_body_def get_item2_def set_item2_def)

lemma mutate_body_short_row:
  assumes "deref h a = Some (Mat g rows)" and "g \<le> 4"
  shows "mutate_body U a (h, n) i = Inl IndexError"
  using assms by (simp add: mutate_body_def get_item2_def)

lemma mutate_spec:
  assumes a: "deref h a = Some (Mat g rows)" and g: "4 < g"
  shows "mutate U (h, n) a =
           Inr ((h[a := Mat g (map (\<lambda>i. (rows ! i)[4 := rows ! i ! 4 + np_random_uniform U (n + i) (- 1) 1])
                              [0..<length rows])],
                 n + length rows), a)"
proof -
  define mut where "mut = (\<lambda>i. (rows ! i)[4 := rows ! i ! 4 + np_random_uniform U (n + i) (- 1) 1])"
  define I where "I = (\<lambda>i (s :: store \<times> nat).
     s = (h[a := Mat g (map (\<lambda>k. if k < i then mut k else rows ! k) [0..<length rows])], n + i))"
  have al: "a < length h" using a by (rule deref_Some_less)
  have "h[a := Mat g rows] = h" using a al by (simp add: deref_def list_update_same_conv)
  then have init: "I 0 (h, n)" by (simp add: I_def map_nth)
  have step: "\<exists>s'. mutate_body U a s i = Inr s' \<and> I (Suc i) s'"
    if i: "i < length rows" and inv: "I i s" for i s
  proof -
    let ?rows = "map (\<lambda>k. if k < i then mut k else rows ! k) [0..<length rows]"
    have s: "s = (h[a := Mat g ?rows], n + i)" using inv by (simp add: I_def)
    have d: "deref (h[a := Mat g ?rows]) a = Some (Mat g ?rows)"
      using al by (simp add: deref_update)
    have il: "i < length ?rows" using i by simp
    have upd: "?rows[i := (?rows ! i)[4 := ?rows ! i ! 4 + np_random_uniform U (n + i) (- 1) 1]]
          = map (\<lambda>k. if k < Suc i then mut k else rows ! k) [0..<length rows]"
    proof (rule nth_equalityI)
      fix k assume "k < length (?rows[i := (?rows ! i)[4 := ?rows ! i ! 4 + np_random_uniform U (n + i) (- 1) 1]])"
      then have k: "k < length rows" by simp
      show "?rows[i := (?rows ! i)[4 := ?rows ! i ! 4 + np_random_uniform U (n + i) (- 1) 1]] ! k
          = map (\<lambda>k. if k < Suc i then mut k else rows ! k) [0..<length rows] ! k"
      proof (cases "k = i")
        case True
        then show ?thesis using i by (simp add: mut_def)
      next
        case False
        then have "k < Suc i \<longleftrightarrow> k < i" by auto
        then show ?thesis using k False by simp
      qed
    qed simp
    show ?thesis
      unfolding s mutate_body_Inr [OF d il g] upd by (simp add: I_def)
  qed
  have fin: "map (\<lambda>k. if k < length rows then mut k else rows ! k) [0..<length rows]
               = map mut [0..<length rows]"
    by (rule map_cong) simp_all
  from for_range_upt_total [of I "(h, n)" "length rows" "mutate_body U a", OF init step]
  have "for_range (mutate_body U a) [0..<length rows] (h, n) =
          Inr (h[a := Mat g (map mut [0..<length rows])], n + length rows)"
    unfolding I_def fin by auto
  moreover have "shape0 h a = Inr (length rows)" using a by (simp add: shape0_def)
  ultimately show ?thesis by (simp add: mutate_def mut_def)
qed

lemma np_random_uniform_range:
  assumes "0 \<le> U n" and "U n \<le> 1"
  shows "- 1 \<le> np_random_uniform U n (- 1) 1 \<and> np_random_uniform U n (- 1) 1 \<le> 1"
  using assms by (simp add: np_random_uniform_def)

text \<open>
  C5. On an offspring array of at least five columns \<open>mutate\<close> succeeds, returns the
  reference it was given and changes the store at that reference only. Row \<open>i\<close> keeps its
  length and every gene but the one at index 4, to which the variate drawn for that row, a
  number between \<open>-1\<close> and \<open>1\<close>, is added; each row consumes a variate of its own.
\<close>

theorem mutate_changes_gene_4_in_place:
  assumes "deref h t_offspring = Some (Mat g rows)" and "\<forall>r \<in> set rows. length r = g"
    and "5 \<le> g" and "\<forall>k. 0 \<le> U k \<and> U k \<le> 1"
  shows "\<exists>rows'. mutate U (h, n) t_offspring
             = Inr ((h[t_offspring := Mat g rows'], n + length rows), t_offspring)
           \<and> length rows' = length rows
           \<and> (\<forall>i<length rows. \<exists>d. d = np_random_uniform U (n + i) (- 1) 1 \<and> - 1 \<le> d \<and> d \<le> 1
                 \<and> length (rows' ! i) = g
                 \<and> rows' ! i ! 4 = rows ! i ! 4 + d
                 \<and> (\<forall>j<g. j \<noteq> 4 \<longrightarrow> rows' ! i ! j = rows ! i ! j))"
proof -
  have g: "4 < g" using assms(3) by simp
  let ?rows' = "map (\<lambda>i. (rows ! i)[4 := rows ! i ! 4 + np_random_uniform U (n + i) (- 1) 1])
                  [0..<length rows]"
  have "\<exists>d. d = np_random_uniform U (n + i) (- 1) 1 \<and> - 1 \<le> d \<and> d \<le> 1
          \<and> length (?rows' ! i) = g
          \<and> ?rows' ! i ! 4 = rows ! i ! 4 + d
          \<and> (\<forall>j<g. j \<noteq> 4 \<longrightarrow> ?rows' ! i ! j = rows ! i ! j)"
    if "i < length rows" for i
  proof -
    have "length (rows ! i) = g" using assms(2) that by simp
    then show ?thesis
      using that g assms(4) np_random_uniform_range [of U "n + i"] by simp
  qed
  then show ?thesis
    using mutate_spec [OF assms(1) g, of U n] by (intro exI [of _ ?rows']) simp
qed

theorem mutate_changes_gene_4_in_place_witness:
  "\<exists>rows'. mutate half_stream ([Mat 5 [[1, 2, 3, 4, 5], [6, 7, 8, 9, 10]]], 0) 0
             = Inr (([Mat 5 [[1, 2, 3, 4, 5], [6, 7, 8, 9, 10]]][0 := Mat 5 rows'],
                     0 + length [[1, 2, 3, 4, 5], [6, 7, 8, 9, 10 :: real]]), 0)
           \<and> length rows' = length [[1, 2, 3, 4, 5], [6, 7, 8, 9, 10 :: real]]
           \<and> (\<forall>i<length [[1, 2, 3, 4, 5], [6, 7, 8, 9, 10 :: real]].
                \<exists>d. d = np_random_uniform half_stream (0 + i) (- 1) 1 \<and> - 1 \<le> d \<and> d \<le> 1
                 \<and> length (rows' ! i) = 5
                 \<and> rows' ! i ! 4 = [[1, 2, 3, 4, 5], [6, 7, 8, 9, 10]] ! i ! 4 + d
                 \<and> (\<forall>j<5. j \<noteq> 4 \<longrightarrow> rows' ! i ! j = [[1, 2, 3, 4, 5], [6, 7, 8, 9, 10]] ! i ! j))"
proof -
  have a: "deref [Mat 5 [[1, 2, 3, 4, 5], [6, 7, 8, 9, 10]]] 0
             = Some (Mat 5 [[1, 2, 3, 4, 5], [6, 7, 8, 9, 10]])"
    by code_simp
  have b: "\<forall>r \<in> set [[1, 2, 3, 4, 5], [6, 7, 8, 9, 10 :: real]]. length r = 5" by simp
  have c: "(5::nat) \<le> 5" by simp
  have d: "\<forall>k. 0 \<le> half_stream k \<and> half_stream k \<le> 1" by (simp add: half_stream_def)
  show ?thesis
    by (rule mutate_changes_gene_4_in_place [OF a b c d, of 0])
qed

text \<open>
  C6. The loop of \<open>mutate\<close> runs once per row, so an array without rows is returned as it
  is, whatever its number of columns: here three columns and no failure.
\<close>

theorem mutate_no_rows_counterexample:
  "mutate half_stream ([Mat 3 []], 0) 0 = Inr (([Mat 3 []], 0), 0)"
  by code_simp

lemma mutate_no_rows:
  assumes "deref h a = Some (Mat g [])"
  shows "mutate U (h, n) a = Inr ((h, n), a)"
  using assms by (simp add: mutate_def shape0_def)

text \<open>
  C6, amended. \<open>mutate\<close> raises IndexError if and only if the offspring array has at
  least one row and at most four columns. With at least one row and five columns or more
  it returns. With no rows the loop body never runs: \<open>mutate\<close> returns the array, the
  store and the generator as they were, whatever the number of columns.
\<close>

theorem mutate_fails_iff_short_rows:
  assumes "deref h t_offspring = Some (Mat g rows)"
  shows "(mutate U (h, n) t_offspring = Inl IndexError \<longleftrightarrow> rows \<noteq> [] \<and> g \<le> 4)
       \<and> (rows \<noteq> [] \<and> 5 \<le> g \<longrightarrow> (\<exists>s. mutate U (h, n) t_offspring = Inr (s, t_offspring)))
       \<and> (rows = [] \<longrightarrow> mutate U (h, n) t_offspring = Inr ((h, n), t_offspring))"
proof (cases "rows = []")
  case True
  with assms have "mutate U (h, n) t_offspring = Inr ((h, n), t_offspring)"
    by (simp add: mutate_no_rows)
  with True show ?thesis by simp
next
  case ne: False
  show ?thesis
  proof (cases "g \<le> 4")
    case True
    have sh: "shape0 h t_offspring = Inr (length rows)" using assms by (simp add: shape0_def)
    have "[0..<length rows] = 0 # [1..<length rows]"
      using ne by (simp add: upt_conv_Cons)
    then have "for_range (mutate_body U t_offspring) [0..<length rows] (h, n) = Inl IndexError"
      using mutate_body_short_row [OF assms True, of U n 0] by simp
    then have "mutate U (h, n) t_offspring = Inl IndexError"
      by (simp add: mutate_def sh)
    with True ne show ?thesis by simp
  next
    case False
    then have "4 < g" by simp
    from mutate_spec [OF assms this, of U n] False ne show ?thesis by simp
  qed
qed

theorem mutate_fails_iff_short_rows_witness:
  "mutate half_stream ([Mat 4 [[1, 2, 3, 4]]], 0) 0 = Inl IndexError
   \<and> mutate half_stream ([Mat 5 [[1, 2, 3, 4, 5]]], 0) 0 \<noteq> Inl IndexError
   \<and> (\<exists>s. mutate half_stream ([Mat 5 [[1, 2, 3, 4, 5]]], 0) 0 = Inr (s, 0))
   \<and> mutate half_stream ([Mat 2 []], 7) 0 = Inr (([Mat 2 []], 7), 0)"
proof -
  have a: "deref [Mat 4 [[1, 2, 3, 4]]] 0 = Some (Mat 4 [[1, 2, 3, 4]])" by code_simp
  have b: "deref [Mat 5 [[1, 2, 3, 4, 5]]] 0 = Some (Mat 5 [[1, 2, 3, 4, 5]])" by code_simp
  have c: "deref [Mat 2 []] 0 = Some (Mat 2 [])" by code_simp
  show ?thesis
    using mutate_fails_iff_short_rows [OF a, of half_stream 0]
      mutate_fails_iff_short_rows [OF b, of half_stream 0]
      mutate_fails_iff_short_rows [OF c, of half_stream 7]
    by simp
qed

subsection \<open>Fitness\<close>

lemma sum_list_map2_times:
  assumes "length xs = length ys"
  shows "sum_list (map2 (*) xs ys) = (\<Sum>j<length xs. xs ! j * (ys ! j :: real))"
proof -
  have "sum_list (map2 (*) xs ys) = (\<Sum>j = 0..<length (map2 (*) xs ys). map2 (*) xs ys ! j)"
    by (rule sum_list_sum_nth)
  also have "\<dots> = (\<Sum>j = 0..<length xs. xs ! j * ys ! j)"
    using assms by (intro sum.cong) simp_all
  finally show ?thesis by (simp add: lessThan_atLeast0)
qed

lemma evaluate_fitness_spec:
  assumes "deref h pop = Some (Mat g rows)" and "\<forall>r \<in> set rows. length r = g"
    and "length t_eq = g"
  shows "evaluate_fitness h t_eq pop =
           Inr (h @ [Vec (map (\<lambda>r. \<Sum>j<g. r ! j * t_eq ! j) rows)], length h)"
proof -
  have "map sum_list (map (\<lambda>r. map2 (*) r t_eq) rows) = map (\<lambda>r. \<Sum>j<g. r ! j * t_eq ! j) rows"
    using assms(2,3) by (simp add: sum_list_map2_times)
  then show ?thesis
    using assms(1,3) by (simp add: evaluate_fitness_def multiply_rows_def alloc_def)
qed

text \<open>
  C7. For an equation of as many coefficients as the population has columns,
  \<open>evaluate_fitness\<close> returns a new vector with one entry per candidate, the sum over the
  genes of gene times coefficient. The store it returns is the old one with the new vector
  appended, so the population is as before (the equation is an immutable tuple). For the
  equation \<open>(1, 2, 3)\<close> and the candidate \<open>(1, 1, 1)\<close> the entry is 6.
\<close>

theorem evaluate_fitness_dot_product:
  assumes "deref h t_population = Some (Mat g rows)" and "\<forall>r \<in> set rows. length r = g"
    and "length t_eq = g"
  shows "\<exists>fs. evaluate_fitness h t_eq t_population = Inr (h @ [Vec fs], length h)
           \<and> length fs = length rows
           \<and> (\<forall>i<length rows. fs ! i = (\<Sum>j<g. rows ! i ! j * t_eq ! j))
           \<and> deref (h @ [Vec fs]) t_population = Some (Mat g rows)
           \<and> evaluate_fitness [Mat 3 [[1, 1, 1]]] [1, 2, 3] 0 = Inr ([Mat 3 [[1, 1, 1]], Vec [6]], 1)"
proof -
  have ex: "evaluate_fitness [Mat 3 [[1, 1, 1]]] [1, 2, 3] 0 = Inr ([Mat 3 [[1, 1, 1]], Vec [6]], 1)"
    by code_simp
  have "t_population < length h" using assms(1) by (rule deref_Some_less)
  then have "deref (h @ [Vec fs]) t_population = Some (Mat g rows)" for fs
    using assms(1) by (simp add: deref_append)
  then show ?thesis
    using evaluate_fitness_spec [OF assms] ex
    by (intro exI [of _ "map (\<lambda>r. \<Sum>j<g. r ! j * t_eq ! j) rows"]) simp
qed

theorem evaluate_fitness_dot_product_witness:
  "\<exists>fs. evaluate_fitness [Mat 3 [[1, 1, 1], [1, 0, 2]]] [1, 2, 3] 0
            = Inr ([Mat 3 [[1, 1, 1], [1, 0, 2]]] @ [Vec fs], length [Mat 3 [[1, 1, 1], [1, 0, 2]]])
           \<and> length fs = length [[1, 1, 1], [1, 0, 2 :: real]]
           \<and> (\<forall>i<length [[1, 1, 1], [1, 0, 2 :: real]].
                 fs ! i = (\<Sum>j<3. [[1, 1, 1], [1, 0, 2]] ! i ! j * [1, 2, 3] ! j))
           \<and> deref ([Mat 3 [[1, 1, 1], [1, 0, 2]]] @ [Vec fs]) 0 = Some (Mat 3 [[1, 1, 1], [1, 0, 2]])
           \<and> evaluate_fitness [Mat 3 [[1, 1, 1]]] [1, 2, 3] 0 = Inr ([Mat 3 [[1, 1, 1]], Vec [6]], 1)"
proof -
  have a: "deref [Mat 3 [[1, 1, 1], [1, 0, 2]]] 0 = Some (Mat 3 [[1, 1, 1], [1, 0, 2]])"
    by code_simp
  have b: "\<forall>r \<in> set [[1, 1, 1], [1, 0, 2 :: real]]. length r = 3" by simp
  have c: "length [1, 2, 3 :: real] = 3" by simp
  show ?thesis
    by (rule evaluate_fitness_dot_product [OF a b c])
qed

subsection \<open>Crossover\<close>

lemma np_uint8_mod: "np_uint8 n = n mod 256"
  by (simp add: np_uint8_def unat_of_nat)

lemma np_uint8_le: "np_uint8 n \<le> n"
  by (simp add: np_uint8_mod)

lemma set_row_slice_frame:
  "set_row_slice h a i lo hi src = Inr h' \<Longrightarrow> \<exists>x. h' = h[a := x]"
  by (auto simp: set_row_slice_def split: option.splits ndarray.splits if_splits sum.splits)

lemma crossover_body_frame:
  assumes "crossover_body t_survivor c offspring h i = Inr h'"
  shows "length h' = length h \<and> (\<forall>a. a \<noteq> offspring \<longrightarrow> h' ! a = h ! a)"
proof -
  from assms obtain src1 h1 src2 where
    "set_row_slice h offspring i 0 (Some c) src1 = Inr h1"
    "set_row_slice h1 offspring i c None src2 = Inr h'"
    by (auto simp: crossover_body_def Let_def split: sum.splits if_splits)
  then obtain x y where "h1 = h[offspring := x]" "h' = h1[offspring := y]"
    by (meson set_row_slice_frame)
  then show ?thesis by simp
qed

lemma crossover_loop_frame:
  assumes "for_range (crossover_body t_survivor c offspring) [0..<m] h0 = Inr h'"
  shows "length h' = length h0 \<and> (\<forall>a. a \<noteq> offspring \<longrightarrow> h' ! a = h0 ! a)"
  by (rule for_range_upt_invariant
        [where I = "\<lambda>i s. length s = length h0 \<and> (\<forall>a. a \<noteq> offspring \<longrightarrow> s ! a = h0 ! a)", OF assms])
     (auto dest: crossover_body_frame)

text \<open>
  C10. The array \<open>crossover\<close> returns is a new one, at an address the old store did not
  have, and every array of the old store, the parent pool among them, is the same after the
  call as before it.
\<close>

theorem crossover_keeps_parents:
  assumes "deref h t_survivor = Some p"
    and "crossover junk h t_survivor t_size = Inr (h', offspring)"
  shows "offspring = length h \<and> offspring \<noteq> t_survivor \<and> length h' = Suc (length h)
       \<and> (\<forall>a<length h. h' ! a = h ! a) \<and> deref h' t_survivor = Some p"
proof -
  from assms(2) obtain arr where
    off: "offspring = length h" and
    run: "for_range (crossover_body t_survivor (np_uint8 (nat (snd t_size) div 2)) (length h))
            [0..<nat (fst t_size)] (h @ [arr]) = Inr h'"
    by (auto simp: crossover_def alloc_def split: sum.splits)
  from crossover_loop_frame [OF run]
  have len: "length h' = Suc (length h)" and fr: "\<forall>a<length h. h' ! a = h ! a"
    by (auto simp: nth_append)
  have sl: "t_survivor < length h" using assms(1) by (rule deref_Some_less)
  then have "deref h' t_survivor = Some p"
    using assms(1) len fr by (simp add: deref_def)
  with off len fr sl show ?thesis by simp
qed

theorem crossover_keeps_parents_witness:
  "deref [Mat 5 [[1, 2, 3, 4, 5], [6, 7, 8, 9, 10]]] 0 = Some (Mat 5 [[1, 2, 3, 4, 5], [6, 7, 8, 9, 10]])
   \<and> crossover zero_junk [Mat 5 [[1, 2, 3, 4, 5], [6, 7, 8, 9, 10]]] 0 (3, 5)
       = Inr ([Mat 5 [[1, 2, 3, 4, 5], [6, 7, 8, 9, 10]],
               Mat 5 [[1, 2, 8, 9, 10], [6, 7, 3, 4, 5], [1, 2, 8, 9, 10]]], 1)
   \<and> (1::nat) = length [Mat 5 [[1, 2, 3, 4, 5], [6, 7, 8, 9, 10]]] \<and> (1::nat) \<noteq> 0
   \<and> deref [Mat 5 [[1, 2, 3, 4, 5], [6, 7, 8, 9, 10]],
             Mat 5 [[1, 2, 8, 9, 10], [6, 7, 3, 4, 5], [1, 2, 8, 9, 10]]] 0
       = Some (Mat 5 [[1, 2, 3, 4, 5], [6, 7, 8, 9, 10]])"
proof -
  have a: "deref [Mat 5 [[1, 2, 3, 4, 5], [6, 7, 8, 9, 10]]] 0
             = Some (Mat 5 [[1, 2, 3, 4, 5], [6, 7, 8, 9, 10]])"
    by code_simp
  have b: "crossover zero_junk [Mat 5 [[1, 2, 3, 4, 5], [6, 7, 8, 9, 10]]] 0 (3, 5)
       = Inr ([Mat 5 [[1, 2, 3, 4, 5], [6, 7, 8, 9, 10]],
               Mat 5 [[1, 2, 8, 9, 10], [6, 7, 3, 4, 5], [1, 2, 8, 9, 10]]], 1)"
    by code_simp
  show ?thesis
    using a b crossover_keeps_parents [OF a b] by simp
qed

lemma crossover_body_Inr:
  assumes surv: "deref h surv = Some (Mat g rows)" and wf: "\<forall>r \<in> set rows. length r = g"
    and ne: "rows \<noteq> []"
    and off: "deref h off = Some (Mat g orows)" and i: "i < length orows"
    and row: "length (orows ! i) = g" and c: "c \<le> g" and neq: "off \<noteq> surv"
  shows "crossover_body surv c off h i =
           Inr (h[off := Mat g (orows[i := take c (rows ! (i mod length rows))
                                          @ drop c (rows ! (Suc i mod length rows))])])"
proof -
  let ?k = "length rows"
  let ?p1 = "rows ! (i mod ?k)" and ?p2 = "rows ! (Suc i mod ?k)"
  have k: "0 < ?k" using ne by simp
  have l1: "length ?p1 = g" and l2: "length ?p2 = g" using wf k by simp_all
  have sh: "shape0 h surv = Inr ?k" using surv by (simp add: shape0_def)
  have g1: "get_row_slice h surv (i mod ?k) 0 (Some c) = Inr (take c ?p1)"
    using surv k by (simp add: get_row_slice_def slice_def)
  have a1: "assign_slice 0 (Some c) (orows ! i) (take c ?p1) = Inr (take c ?p1 @ drop c (orows ! i))"
    using row l1 c by (simp add: assign_slice_def slice_def broadcast_def min_def)
  let ?h1 = "h[off := Mat g (orows[i := take c ?p1 @ drop c (orows ! i)])]"
  have s1: "set_row_slice h off i 0 (Some c) (take c ?p1) = Inr ?h1"
    using off i by (simp add: set_row_slice_def a1)
  have surv1: "deref ?h1 surv = Some (Mat g rows)"
    using surv neq by (simp add: deref_update)
  have g2: "get_row_slice ?h1 surv (Suc i mod ?k) c None = Inr (drop c ?p2)"
    using surv1 k by (simp add: get_row_slice_def slice_def)
  have offl: "off < length h" using off by (rule deref_Some_less)
  have off1: "deref ?h1 off = Some (Mat g (orows[i := take c ?p1 @ drop c (orows ! i)]))"
    using offl by (simp add: deref_update)
  have a2: "assign_slice c None (take c ?p1 @ drop c (orows ! i)) (drop c ?p2)
              = Inr (take c ?p1 @ drop c ?p2)"
    using row l1 l2 c by (simp add: assign_slice_def slice_def broadcast_def min_def)
  have s2: "set_row_slice ?h1 off i c None (drop c ?p2) =
              Inr (h[off := Mat g (orows[i := take c ?p1 @ drop c ?p2])])"
    using i by (simp add: set_row_slice_def off1 a2)
  show ?thesis
    using k by (simp add: crossover_body_def sh g1 s1 g2 s2 del: list_update_overwrite)
qed

lemma crossover_spec:
  assumes surv: "deref h surv = Some (Mat g rows)" and wf: "\<forall>r \<in> set rows. length r = g"
    and ne: "rows \<noteq> []" and m: "0 \<le> m"
  shows "crossover junk h surv (m, int g) =
           Inr (h @ [Mat g (map (\<lambda>i. take (np_uint8 (g div 2)) (rows ! (i mod length rows))
                                    @ drop (np_uint8 (g div 2)) (rows ! (Suc i mod length rows)))
                             [0..<nat m])], length h)"
proof -
  define c where "c = np_uint8 (g div 2)"
  define F where "F = (\<lambda>i. take c (rows ! (i mod length rows)) @ drop c (rows ! (Suc i mod length rows)))"
  define J where "J = (\<lambda>i. map (junk i) [0..<g])"
  define I where "I = (\<lambda>i (s :: store).
     s = h @ [Mat g (map (\<lambda>k. if k < i then F k else J k) [0..<nat m])])"
  have cg: "c \<le> g" using np_uint8_le [of "g div 2"] by (simp add: c_def)
  have sl: "surv < length h" using surv by (rule deref_Some_less)
  have init: "I 0 (h @ [Mat g (map J [0..<nat m])])" by (simp add: I_def)
  have step: "\<exists>s'. crossover_body surv c (length h) s i = Inr s' \<and> I (Suc i) s'"
    if i: "i < nat m" and inv: "I i s" for i s
  proof -
    let ?orows = "map (\<lambda>k. if k < i then F k else J k) [0..<nat m]"
    have s: "s = h @ [Mat g ?orows]" using inv by (simp add: I_def)
    have d1: "deref (h @ [Mat g ?orows]) surv = Some (Mat g rows)"
      using surv sl by (simp add: deref_append)
    have d2: "deref (h @ [Mat g ?orows]) (length h) = Some (Mat g ?orows)"
      by (simp add: deref_append)
    have il: "i < length ?orows" using i by simp
    have rl: "length (?orows ! i) = g" using i by (simp add: J_def)
    have neq: "length h \<noteq> surv" using sl by simp
    have upd: "?orows[i := F i] = map (\<lambda>k. if k < Suc i then F k else J k) [0..<nat m]"
    proof (rule nth_equalityI)
      fix k assume "k < length (?orows[i := F i])"
      then have k: "k < nat m" by simp
      show "?orows[i := F i] ! k = map (\<lambda>k. if k < Suc i then F k else J k) [0..<nat m] ! k"
      proof (cases "k = i")
        case True
        then show ?thesis using i by simp
      next
        case False
        then have "k < Suc i \<longleftrightarrow> k < i" by auto
        then show ?thesis using k False by simp
      qed
    qed simp
    have "crossover_body surv c (length h) (h @ [Mat g ?orows]) i
            = Inr ((h @ [Mat g ?orows])[length h := Mat g (?orows[i := F i])])"
      using crossover_body_Inr [OF d1 wf ne d2 il rl cg neq] unfolding F_def .
    then show ?thesis
      unfolding s upd by (simp add: I_def)
  qed
  have fin: "map (\<lambda>k. if k < nat m then F k else J k) [0..<nat m] = map F [0..<nat m]"
    by (rule map_cong) simp_all
  from for_range_upt_total [of I _ "nat m" "crossover_body surv c (length h)", OF init step]
  have run: "for_range (crossover_body surv c (length h)) [0..<nat m] (h @ [Mat g (map J [0..<nat m])])
          = Inr (h @ [Mat g (map F [0..<nat m])])"
    unfolding I_def fin by auto
  have em: "np_empty junk (m, int g) = Inr (Mat g (map J [0..<nat m]))"
    using m by (simp add: np_empty_def J_def)
  show ?thesis
    using run by (simp add: crossover_def em alloc_def c_def [symmetric] F_def)
qed

text \<open>
  C4. The crossover point is \<open>np.uint8(t_size[1] / 2)\<close>, an eight-bit value. For 512
  genes it is 0 and not 256: the only offspring of the parents \<open>(0, ..., 0)\<close> and
  \<open>(1, ..., 1)\<close> is a copy of the second parent, so its gene 0 is not the gene 0 of parent
  \<open>0 mod 2\<close>, although position 0 lies before \<open>512 div 2\<close>.
\<close>

theorem crossover_512_genes:
  "np_uint8 (512 div 2) = 0
   \<and> crossover zero_junk [Mat 512 [replicate 512 0, replicate 512 1]] 0 (1, 512)
     = Inr ([Mat 512 [replicate 512 0, replicate 512 1], Mat 512 [replicate 512 1]], 1)
   \<and> replicate 512 (1::real) ! 0 \<noteq> [replicate 512 0, replicate 512 (1::real)] ! (0 mod 2) ! 0"
proof -
  have a: "deref [Mat 512 [replicate 512 0, replicate 512 1]] 0
             = Some (Mat 512 [replicate 512 0, replicate 512 1])"
    by (simp add: deref_def)
  have b: "\<forall>r \<in> set [replicate 512 0, replicate 512 (1::real)]. length r = 512" by simp
  have c: "[replicate 512 0, replicate 512 (1::real)] \<noteq> []" by simp
  have d: "(0::int) \<le> 1" by simp
  show ?thesis
    using crossover_spec [OF a b c d, of zero_junk] by (simp add: np_uint8_mod)
qed

text \<open>
  Where the eight bits suffice, up to 511 genes, the crossover point is \<open>G div 2\<close>: for
  a pool of \<open>K \<ge> 1\<close> parents and \<open>M \<ge> 0\<close> offspring, offspring \<open>i\<close> has the genes of
  parent \<open>i mod K\<close> before position \<open>G div 2\<close> and the genes of parent
  \<open>(i + 1) mod K\<close> from there on, and the result does not depend on what the memory of
  the new array held.
\<close>

lemma crossover_below_512:
  assumes "deref h t_survivor = Some (Mat g rows)" and "\<forall>r \<in> set rows. length r = g"
    and "rows \<noteq> []" and "0 \<le> m" and "g < 512"
  shows "\<exists>orows. crossover junk h t_survivor (m, int g) = Inr (h @ [Mat g orows], length h)
          \<and> length orows = nat m
          \<and> (\<forall>i<nat m. length (orows ! i) = g
                \<and> (\<forall>j<g. orows ! i ! j =
                      (if j < g div 2 then rows ! (i mod length rows) ! j
                       else rows ! ((i + 1) mod length rows) ! j)))
          \<and> (\<forall>junk'. crossover junk' h t_survivor (m, int g)
                       = crossover junk h t_survivor (m, int g))"
proof -
  let ?k = "length rows"
  let ?c = "g div 2"
  let ?F = "\<lambda>i. take ?c (rows ! (i mod ?k)) @ drop ?c (rows ! (Suc i mod ?k))"
  have c: "np_uint8 (g div 2) = g div 2" using assms(5) by (simp add: np_uint8_mod)
  have spec: "crossover j h t_survivor (m, int g) = Inr (h @ [Mat g (map ?F [0..<nat m])], length h)"
    for j
    using crossover_spec [OF assms(1-4), of j] by (simp add: c)
  have k: "0 < ?k" using assms(3) by simp
  have gene: "length (?F i) = g
      \<and> (\<forall>j<g. ?F i ! j = (if j < ?c then rows ! (i mod ?k) ! j else rows ! ((i + 1) mod ?k) ! j))"
    for i
  proof -
    have l1: "length (rows ! (i mod ?k)) = g" and l2: "length (rows ! (Suc i mod ?k)) = g"
      using assms(2) k by simp_all
    have lt: "length (take ?c (rows ! (i mod ?k))) = ?c" using l1 by simp
    have "?F i ! j = rows ! (i mod ?k) ! j" if "j < ?c" for j
      using that lt by (simp add: nth_append)
    moreover have "?F i ! j = rows ! ((i + 1) mod ?k) ! j" if "\<not> j < ?c" "j < g" for j
    proof -
      have "?F i ! j = drop ?c (rows ! (Suc i mod ?k)) ! (j - ?c)"
        using that lt by (simp add: nth_append)
      also have "\<dots> = rows ! (Suc i mod ?k) ! (?c + (j - ?c))"
        using that l2 by (intro nth_drop) simp
      finally show ?thesis using that by simp
    qed
    ultimately show ?thesis using l1 l2 by simp
  qed
  show ?thesis
    using spec gene by (intro exI [of _ "map ?F [0..<nat m]"]) simp
qed

subsection \<open>The generational loop\<close>

lemma assign_rows_same_width:
  assumes "deref h a = Some (Mat c rows)" and "deref h b = Some (Mat c src)"
    and "length src = length (slice lo hi rows)"
  shows "assign_rows h a lo hi b =
           Inr (h[a := Mat c (take lo rows @ src @ drop (lo + length src) rows)])"
  using assms by (simp add: assign_rows_def broadcast_def)

lemma generation_spec:
  assumes pop: "deref (heap v) pop = Some (Mat g rows)" and wf: "\<forall>r \<in> set rows. length r = g"
    and k1: "1 \<le> k" and kp: "k \<le> length rows" and g: "5 \<le> g" and eq: "length t_eq = g"
  shows "\<exists>v' pa om srows mrows.
      generation U junk t_eq (int g) (int (length rows), int g) (int k) pop v gen = Inr v'
    \<and> deref (heap v') pop = Some (Mat g (srows @ mrows))
    \<and> parents v' = Some pa \<and> deref (heap v') pa = Some (Mat g srows)
    \<and> offspring_mut v' = Some om \<and> deref (heap v') om = Some (Mat g mrows)
    \<and> length srows = k \<and> length mrows = length rows - k
    \<and> (\<forall>r \<in> set srows. length r = g) \<and> (\<forall>r \<in> set mrows. length r = g)"
proof -
  let ?h = "heap v"
  let ?P = "length rows"
  have popl: "pop < length ?h" using pop by (rule deref_Some_less)
  have ne: "rows \<noteq> []" using k1 kp by auto
  \<comment> \<open>fitness\<close>
  define fs where "fs = map (\<lambda>r. \<Sum>j<g. r ! j * t_eq ! j) rows"
  define h1 where "h1 = ?h @ [Vec fs]"
  have ef: "evaluate_fitness ?h t_eq pop = Inr (h1, length ?h)"
    unfolding h1_def fs_def by (rule evaluate_fitness_spec [OF pop wf eq])
  have l1: "length h1 = Suc (length ?h)" by (simp add: h1_def)
  have pop1: "deref h1 pop = Some (Mat g rows)"
    using pop popl by (simp add: h1_def deref_append)
  have fit1: "deref h1 (length ?h) = Some (Vec fs)" by (simp add: h1_def deref_append)
  have lfs: "length fs = length rows" by (simp add: fs_def)
  \<comment> \<open>selection\<close>
  have "0 < int k \<longrightarrow> rows \<noteq> []" "0 \<le> int k" using ne by simp_all
  from make_selection_trace_spec [OF pop1 wf fit1 lfs this, of "junk (length h1)"]
  obtain h2 chosen srows where
    tr: "make_selection_trace (junk (length h1)) h1 pop (length ?h) (int k)
           = Inr ((h2, length h1), chosen)"
    and l2: "length h2 = Suc (length h1)"
    and fr2: "\<forall>a<length h1. a \<noteq> length ?h \<longrightarrow> h2 ! a = h1 ! a"
    and pa2: "deref h2 (length h1) = Some (Mat g srows)"
    and ls: "length srows = k" and wfs: "\<forall>r \<in> set srows. length r = g"
    by auto
  have ms: "make_selection (junk (length h1)) h1 pop (length ?h) (int k) = Inr (h2, length h1)"
    using tr by (simp add: make_selection_def)
  have pop2: "deref h2 pop = Some (Mat g rows)"
    using pop1 popl fr2 l1 l2 by (simp add: deref_def)
  have sh2: "shape0 h2 (length h1) = Inr k" using pa2 ls by (simp add: shape0_def)
  \<comment> \<open>crossover\<close>
  define c where "c = np_uint8 (g div 2)"
  define orows where "orows = map (\<lambda>i. take c (srows ! (i mod length srows))
                                  @ drop c (srows ! (Suc i mod length srows))) [0..<?P - k]"
  define h3 where "h3 = h2 @ [Mat g orows]"
  have sne: "srows \<noteq> []" using ls k1 by auto
  have m: "0 \<le> int ?P - int k" using kp by simp
  have nm: "nat (int ?P - int k) = ?P - k" by simp
  have cr: "crossover (junk (length h2)) h2 (length h1) (int ?P - int k, int g) = Inr (h3, length h2)"
    using crossover_spec [OF pa2 wfs sne m, of "junk (length h2)"]
    by (simp only: nm h3_def orows_def c_def)
  have lo: "length orows = ?P - k" by (simp add: orows_def)
  have off3: "deref h3 (length h2) = Some (Mat g orows)" by (simp add: h3_def deref_append)
  \<comment> \<open>mutation\<close>
  define mrows where "mrows = map (\<lambda>i. (orows ! i)[4 := orows ! i ! 4
                                   + np_random_uniform U (rng v + i) (- 1) 1]) [0..<length orows]"
  define h4 where "h4 = h3[length h2 := Mat g mrows]"
  have g4: "4 < g" using g by simp
  have mu: "mutate U (h3, rng v) (length h2) = Inr ((h4, rng v + length orows), length h2)"
    unfolding h4_def mrows_def by (rule mutate_spec [OF off3 g4])
  have lm: "length mrows = ?P - k" by (simp add: mrows_def lo)
  have cg: "c \<le> g" using np_uint8_le [of "g div 2"] by (simp add: c_def)
  have wfo: "length (orows ! i) = g" if "i < length orows" for i
  proof -
    have "length (srows ! (i mod length srows)) = g" "length (srows ! (Suc i mod length srows)) = g"
      using wfs sne by simp_all
    then show ?thesis using that cg by (simp add: orows_def)
  qed
  have wfm: "\<forall>r \<in> set mrows. length r = g"
    using wfo by (auto simp: mrows_def)
  have l3: "length h3 = Suc (length h2)" by (simp add: h3_def)
  have l4: "length h4 = length h3" by (simp add: h4_def)
  have pa4: "deref h4 (length h1) = Some (Mat g srows)"
    using pa2 l2 by (simp add: h4_def h3_def deref_update deref_append)
  have pop4: "deref h4 pop = Some (Mat g rows)"
    using pop2 popl l1 l2 by (simp add: h4_def h3_def deref_update deref_append)
  have off4: "deref h4 (length h2) = Some (Mat g mrows)"
    by (simp add: h4_def h3_def deref_append)
  have sh4: "shape0 h4 (length h1) = Inr k" using pa4 ls by (simp add: shape0_def)
  \<comment> \<open>the two assignments to the population\<close>
  define h5 where "h5 = h4[pop := Mat g (srows @ drop k rows)]"
  have "length srows = length (slice 0 (Some k) rows)" using ls kp by (simp add: slice_def)
  from assign_rows_same_width [OF pop4 pa4 this]
  have as1: "assign_rows h4 pop 0 (Some k) (length h1) = Inr h5"
    by (simp add: h5_def ls)
  have pl4: "pop < length h4" using popl l1 l2 l3 l4 by simp
  have neq1: "pop \<noteq> length h1" and neq2: "pop \<noteq> length h2" using popl l1 l2 by simp_all
  have pop5: "deref h5 pop = Some (Mat g (srows @ drop k rows))"
    using pl4 by (simp add: h5_def deref_update)
  have pa5: "deref h5 (length h1) = Some (Mat g srows)"
    using pa4 neq1 by (simp add: h5_def deref_update)
  have off5: "deref h5 (length h2) = Some (Mat g mrows)"
    using off4 neq2 by (simp add: h5_def deref_update)
  have sh5: "shape0 h5 (length h1) = Inr k" using pa5 ls by (simp add: shape0_def)
  define h6 where "h6 = h5[pop := Mat g (srows @ mrows)]"
  have "length mrows = length (slice k None (srows @ drop k rows))"
    using ls lm by (simp add: slice_def)
  from assign_rows_same_width [OF pop5 off5 this]
  have as2: "assign_rows h5 pop k None (length h2) = Inr h6"
    using ls lm kp by (simp add: h6_def)
  have pl5: "pop < length h5" using pl4 by (simp add: h5_def)
  have pop6: "deref h6 pop = Some (Mat g (srows @ mrows))"
    using pl5 by (simp add: h6_def deref_update)
  have pa6: "deref h6 (length h1) = Some (Mat g srows)"
    using pa5 neq1 by (simp add: h6_def deref_update)
  have off6: "deref h6 (length h2) = Some (Mat g mrows)"
    using off5 neq2 by (simp add: h6_def deref_update)
  have "generation U junk t_eq (int g) (int ?P, int g) (int k) pop v gen =
          Inr \<lparr>heap = h6, rng = rng v + length orows, fitness = Some (length ?h),
               parents = Some (length h1), offspring_cro = Some (length h2),
               offspring_mut = Some (length h2)\<rparr>"
    by (simp add: generation_def ef ms sh2 cr mu sh4 as1 sh5 as2)
  then show ?thesis
    using pop6 pa6 off6 ls lm wfs wfm by auto
qed

text \<open>
  C8. Let the population be a \<open>P \<times> G\<close> array with \<open>G \<ge> 5\<close> columns, the equation have
  \<open>G\<close> coefficients and \<open>1 \<le> K \<le> P\<close>. Then any number of generations runs without
  error, and after them the population is the same array, still of \<open>P\<close> rows of \<open>G\<close>
  genes. After at least one generation the parent pool of the last generation is a
  \<open>K \<times> G\<close> array, its mutated offspring a \<open>(P - K) \<times> G\<close> array, and the rows of the
  population are the parents followed by the mutated offspring.
\<close>

theorem ga_loop_shapes:
  assumes "deref (heap v) pop = Some (Mat g rows)" and "\<forall>r \<in> set rows. length r = g"
    and "length rows = p" and "1 \<le> k" and "k \<le> p" and "5 \<le> g" and "length t_eq = g"
  shows "\<exists>v' rows'. ga_loop U junk t_eq (int g) (int p, int g) (int k) pop n v = Inr v'
          \<and> deref (heap v') pop = Some (Mat g rows') \<and> length rows' = p
          \<and> (\<forall>r \<in> set rows'. length r = g)
          \<and> (0 < n \<longrightarrow>
               (\<exists>pa om srows mrows.
                   parents v' = Some pa \<and> deref (heap v') pa = Some (Mat g srows)
                 \<and> length srows = k \<and> (\<forall>r \<in> set srows. length r = g)
                 \<and> offspring_mut v' = Some om \<and> deref (heap v') om = Some (Mat g mrows)
                 \<and> length mrows = p - k \<and> (\<forall>r \<in> set mrows. length r = g)
                 \<and> rows' = srows @ mrows))"
proof -
  define I where "I = (\<lambda>(i::nat) (v'::vars). \<exists>rows'.
       deref (heap v') pop = Some (Mat g rows') \<and> length rows' = p
     \<and> (\<forall>r \<in> set rows'. length r = g)
     \<and> (0 < i \<longrightarrow>
          (\<exists>pa om srows mrows.
              parents v' = Some pa \<and> deref (heap v') pa = Some (Mat g srows)
            \<and> length srows = k \<and> (\<forall>r \<in> set srows. length r = g)
            \<and> offspring_mut v' = Some om \<and> deref (heap v') om = Some (Mat g mrows)
            \<and> length mrows = p - k \<and> (\<forall>r \<in> set mrows. length r = g)
            \<and> rows' = srows @ mrows)))"
  have init: "I 0 v" using assms(1-3) by (auto simp: I_def)
  have step: "\<exists>s'. generation U junk t_eq (int g) (int p, int g) (int k) pop s i = Inr s'
                \<and> I (Suc i) s'"
    if "i < n" and inv: "I i s" for i s
  proof -
    from inv obtain rs where rs: "deref (heap s) pop = Some (Mat g rs)" "length rs = p"
      "\<forall>r \<in> set rs. length r = g"
      by (auto simp: I_def)
    have kp: "k \<le> length rs" using assms(5) rs(2) by simp
    from generation_spec [OF rs(1) rs(3) assms(4) kp assms(6,7), of U junk i]
    obtain v' pa om srows mrows where
      "generation U junk t_eq (int g) (int p, int g) (int k) pop s i = Inr v'"
      "deref (heap v') pop = Some (Mat g (srows @ mrows))"
      "parents v' = Some pa" "deref (heap v') pa = Some (Mat g srows)"
      "offspring_mut v' = Some om" "deref (heap v') om = Some (Mat g mrows)"
      "length srows = k" "length mrows = p - k"
      "\<forall>r \<in> set srows. length r = g" "\<forall>r \<in> set mrows. length r = g"
      unfolding rs(2) by blast
    moreover have "length (srows @ mrows) = p"
      using calculation(7,8) assms(5) by simp
    moreover have "\<forall>r \<in> set (srows @ mrows). length r = g"
      using calculation(9,10) by auto
    ultimately show ?thesis unfolding I_def by blast
  qed
  from for_range_upt_total [of I v n "generation U junk t_eq (int g) (int p, int g) (int k) pop",
      OF init step]
  show ?thesis unfolding ga_loop_def I_def by blast
qed

theorem ga_loop_shapes_witness:
  "\<exists>pop v' rows'. ga_main half_stream zero_junks = Inr (pop, v')
     \<and> deref (heap v') pop = Some (Mat 6 rows') \<and> length rows' = 8
     \<and> (\<exists>pa om srows mrows.
            parents v' = Some pa \<and> deref (heap v') pa = Some (Mat 6 srows) \<and> length srows = 4
          \<and> offspring_mut v' = Some om \<and> deref (heap v') om = Some (Mat 6 mrows)
          \<and> length mrows = 4 \<and> rows' = srows @ mrows)"
proof -
  define rows0 where "rows0 = map (\<lambda>i. map (\<lambda>j. np_random_uniform half_stream (0 + i * nat 6 + j) (- 4.0) 4.0)
                          [0..<nat 6]) [0..<nat 8]"
  define v0 where "v0 = \<lparr>heap = [Mat 6 rows0], rng = 48, fitness = None, parents = None,
                         offspring_cro = None, offspring_mut = None\<rparr>"
  have ini: "make_initial_population half_stream ([], 0) pop_size (- 4.0) 4.0
               = Inr (([Mat 6 rows0], 48), 0)"
    by (simp add: make_initial_population_def pop_size_def pool_size_def weights_def alloc_def rows0_def)
  have a: "deref (heap v0) 0 = Some (Mat 6 rows0)" by (simp add: v0_def deref_def)
  have b: "\<forall>r \<in> set rows0. length r = 6" by (auto simp: rows0_def)
  have c: "length rows0 = 8" by (simp add: rows0_def)
  have d: "(1::nat) \<le> 4" "(4::nat) \<le> 8" "(5::nat) \<le> 6" by simp_all
  have e: "length eq_inputs = 6" by (simp add: eq_inputs_def)
  have n: "0 < generations" by (simp add: generations_def)
  from ga_loop_shapes [OF a b c d e, of half_stream zero_junks generations] n
  obtain v' rows' where
    run: "ga_loop half_stream zero_junks eq_inputs (int 6) (int 8, int 6) (int 4) 0 generations v0 = Inr v'"
    and rest: "deref (heap v') 0 = Some (Mat 6 rows')" "length rows' = 8"
      "\<exists>pa om srows mrows.
            parents v' = Some pa \<and> deref (heap v') pa = Some (Mat 6 srows) \<and> length srows = 4
          \<and> offspring_mut v' = Some om \<and> deref (heap v') om = Some (Mat 6 mrows)
          \<and> length mrows = 4 \<and> rows' = srows @ mrows"
    by auto
  have "ga_main half_stream zero_junks = Inr (0, v')"
    unfolding ga_main_def ini
    using run by (simp add: v0_def pop_size_def pool_size_def weights_def parent_donors_def)
  with rest show ?thesis by blast
qed

end
